theory Spec2Isabelle
  imports Main "HOL-Library.Sublist"
begin

section \<open>Python values used by step1\_get\_youtube.py\<close>

text \<open>
  Strings are character lists. The script uses three string primitives: the substring
  test \<open>sub in s\<close>, \<open>s.split(sep)\<close> with a non-empty literal separator, and indexing
  of the list that \<open>split\<close> returns. Indexing out of range raises \<open>IndexError\<close> in
  Python, so it is a branch of the model.
\<close>

datatype error = IndexError | TypeError

definition bind :: "error + 'a \<Rightarrow> ('a \<Rightarrow> error + 'b) \<Rightarrow> error + 'b" where
  "bind m f = (case m of Inl e \<Rightarrow> Inl e | Inr x \<Rightarrow> f x)"

text \<open>\<open>sub in s\<close>: some suffix of \<open>s\<close> starts with \<open>sub\<close>.\<close>

fun str_in :: "string \<Rightarrow> string \<Rightarrow> bool" where
  "str_in sub [] = (sub = [])"
| "str_in sub (c # cs) = (prefix sub (c # cs) \<or> str_in sub cs)"

text \<open>
  \<open>s.split(sep)\<close>: the text is cut at the occurrences of \<open>sep\<close>, found from the left
  and not overlapping. Every separator in the script is a non-empty literal; Python
  raises \<open>ValueError\<close> on an empty one, and here an empty separator never matches.
  Where \<open>sep\<close> starts the text \<open>c # cs\<close>, the scan goes on after it: its first
  character is \<open>c\<close>, the other \<open>length sep - 1\<close> are dropped from \<open>cs\<close>.
\<close>

fun str_split :: "string \<Rightarrow> string \<Rightarrow> string list" where
  "str_split sep [] = [[]]"
| "str_split sep (c # cs) =
     (if sep \<noteq> [] \<and> prefix sep (c # cs)
      then [] # str_split sep (drop (length sep - 1) cs)
      else (case str_split sep cs of
              [] \<Rightarrow> [[c]]
            | p # ps \<Rightarrow> (c # p) # ps))"

text \<open>\<open>xs[i]\<close> for \<open>i \<ge> 0\<close>.\<close>

definition item :: "'a list \<Rightarrow> nat \<Rightarrow> error + 'a" where
  "item xs i = (if i < length xs then Inr (xs ! i) else Inl IndexError)"

text \<open>\<open>xs[:n]\<close>: a negative \<open>n\<close> counts from the end.\<close>

definition slice_to :: "'a list \<Rightarrow> int \<Rightarrow> 'a list" where
  "slice_to xs n =
     (if 0 \<le> n then take (nat n) xs else take (length xs - nat (- n)) xs)"

text \<open>The expression \<open>url.split(sep)[1].split('&')[0]\<close> (lines 102, 126, 141, 339).\<close>

definition split_field :: "string \<Rightarrow> string \<Rightarrow> error + string" where
  "split_field sep url =
     bind (item (str_split sep url) 1) (\<lambda>part. item (str_split ''&'' part) 0)"

definition watch_url :: "string \<Rightarrow> string" where
  "watch_url video_id = ''https://www.youtube.com/watch?v='' @ video_id"

section \<open>get\_video\_url (lines 91--104)\<close>

definition get_video_url :: "string \<Rightarrow> error + string" where
  "get_video_url url_with_playlist =
     (if str_in ''&list='' url_with_playlist \<and> str_in ''v='' url_with_playlist
      then bind (split_field ''v='' url_with_playlist)
             (\<lambda>video_id. Inr (watch_url video_id))
      else Inr url_with_playlist)"

section \<open>extract\_urls\_from\_playlist (lines 106--162)\<close>

text \<open>
  The extraction library is outside the program. What \<open>ydl.extract_info(playlist_url,
  download=False)\<close> can do is a value: it raises, it returns \<open>None\<close> (then
  \<open>'entries' in playlist_info\<close> raises \<open>TypeError\<close>), it returns a dictionary with no
  \<open>entries\<close> key, or one with the entries. An entry is \<open>None\<close> or a dictionary, given
  as an association list whose values are strings or \<open>None\<close>. An exception raised
  while the entries are iterated leaves the URLs appended so far, which is the
  result for the entries yielded before it.
\<close>

type_synonym entry = "(string \<times> string option) list"

datatype extract_result =
    Raised
  | NoInfo
  | InfoNoEntries
  | InfoEntries "entry option list"

text \<open>\<open>entry.get('id')\<close>.\<close>

definition entry_get_id :: "entry \<Rightarrow> string option" where
  "entry_get_id entry = (case map_of entry ''id'' of None \<Rightarrow> None | Some v \<Rightarrow> v)"

text \<open>The body of the loop over the entries (lines 150--157).\<close>

definition add_entry :: "int \<Rightarrow> entry option \<Rightarrow> string list \<Rightarrow> string list" where
  "add_entry max_downloads entry url_list =
     (case entry of
        None \<Rightarrow> url_list
      | Some e \<Rightarrow>
          if e \<noteq> [] \<and> int (length url_list) < max_downloads then
            (case entry_get_id e of
               None \<Rightarrow> url_list
             | Some video_id \<Rightarrow>
                 if video_id \<noteq> [] then
                   (let video_url = watch_url video_id
                    in if video_url \<notin> set url_list then url_list @ [video_url]
                       else url_list)
                 else url_list)
          else url_list)"

text \<open>
  The \<open>try\<close> block of lines 137--159 with its handler, which only logs: the value is
  the list \<open>url_list\<close> holds when the block is left.
\<close>

definition extract_playlist ::
  "(string \<Rightarrow> extract_result) \<Rightarrow> string \<Rightarrow> int \<Rightarrow> string list \<Rightarrow> string list" where
  "extract_playlist extract_info url max_downloads url_list =
     (case (if str_in ''list='' url
            then bind (split_field ''list='' url)
                   (\<lambda>playlist_id. Inr (''https://www.youtube.com/playlist?list='' @ playlist_id))
            else Inr url) of
        Inl e \<Rightarrow> url_list
      | Inr playlist_url \<Rightarrow>
          (case extract_info playlist_url of
             Raised \<Rightarrow> url_list
           | NoInfo \<Rightarrow> url_list
           | InfoNoEntries \<Rightarrow> url_list
           | InfoEntries entries \<Rightarrow> fold (add_entry max_downloads) entries url_list))"

definition extract_urls_from_playlist ::
  "(string \<Rightarrow> extract_result) \<Rightarrow> string \<Rightarrow> int \<Rightarrow> error + string list" where
  "extract_urls_from_playlist extract_info url max_downloads =
     (if str_in ''watch?v='' url \<and> str_in ''list='' url then
        bind (split_field ''watch?v='' url)
          (\<lambda>video_id.
             let url_list = [watch_url video_id]
             in if max_downloads = 1 then Inr url_list
                else Inr (slice_to (extract_playlist extract_info url max_downloads url_list)
                            max_downloads))
      else Inr (slice_to (extract_playlist extract_info url max_downloads []) max_downloads))"

section \<open>download\_video (lines 176--277)\<close>

text \<open>
  The download engine is outside the program too. Each call of it inside the \<open>try\<close>
  block of lines 234--277 either raises an exception (carrying the text \<open>str(e)\<close>) or
  returns. The handler is \<open>except Exception\<close>, the class of the errors the engine
  raises. Creating the output directory (line 194, done once already by the caller)
  and logging are taken to succeed.
\<close>

datatype 'a outcome = Raise string | Return 'a

type_synonym dict = "(string \<times> string option) list"

record engine_run =
  run_open :: "unit outcome"
  run_extract_info :: "dict option outcome"
  run_download :: "unit outcome"
  run_matching_files :: "string list outcome"

text \<open>
  \<open>run_open\<close> is \<open>yt_dlp.YoutubeDL(download_opts)\<close> (line 236), \<open>run_extract_info\<close> is
  line 238, \<open>run_download\<close> is line 248 and \<open>run_matching_files\<close> is what lines 251--255
  (\<open>prepare_filename\<close>, then \<open>output_dir.glob\<close>) find.
\<close>

record download_opts =
  opt_format :: string
  opt_outtmpl :: string
  opt_quiet :: bool
  opt_noplaylist :: bool
  opt_merge_output_format :: string
  opt_ignoreerrors :: bool
  opt_no_warnings :: bool
  opt_verbose :: bool
  opt_postprocessors :: "(string \<times> string) list list option"

datatype event = DownloadVideo string | WriteReport string "string list"

text \<open>
  The trace lists what the program did to the outside, oldest first: each call of
  \<open>download_video\<close> with its URL, and the report file written with the strings given
  to \<open>writelines\<close>. What the engine does on a call may depend on the URL, the
  options and everything that happened before.
\<close>

type_synonym engine = "event list \<Rightarrow> string \<Rightarrow> download_opts \<Rightarrow> engine_run"

text \<open>
  \<open>str(a / b)\<close> for a POSIX path \<open>a\<close> in \<open>pathlib\<close>'s normal form and a string \<open>b\<close>.
  The components of \<open>b\<close> are what lies between its slashes, empty ones and \<open>.\<close>
  left out (\<open>..\<close> is kept). An absolute \<open>b\<close> replaces \<open>a\<close>, and exactly two
  leading slashes are kept as they are.
\<close>

definition path_parts :: "string \<Rightarrow> string list" where
  "path_parts b = filter (\<lambda>p. p \<noteq> [] \<and> p \<noteq> ''.'') (str_split ''/'' b)"

fun join_parts :: "string list \<Rightarrow> string" where
  "join_parts [] = []"
| "join_parts [p] = p"
| "join_parts (p # q # ps) = p @ ''/'' @ join_parts (q # ps)"

definition path_join :: "string \<Rightarrow> string \<Rightarrow> string" where
  "path_join a b =
     (if prefix ''/'' b
      then (if prefix ''//'' b \<and> \<not> prefix ''///'' b then ''//'' else ''/'') @
           join_parts (path_parts b)
      else if path_parts b = [] then a
      else (if suffix ''/'' a then a else a @ ''/'') @ join_parts (path_parts b))"

text \<open>\<open>d.get(key, default)\<close>.\<close>

definition dict_get :: "dict \<Rightarrow> string \<Rightarrow> string option \<Rightarrow> string option" where
  "dict_get d key dflt = (case map_of d key of None \<Rightarrow> dflt | Some v \<Rightarrow> v)"

definition make_download_opts ::
  "string \<Rightarrow> string \<Rightarrow> string \<Rightarrow> string \<Rightarrow> string \<Rightarrow> string \<Rightarrow> download_opts" where
  "make_download_opts output_dir type' size' video_format audio_format log_level =
     (let format_spec =
        (if type' = ''video''
         then ''bestvideo[ext='' @ video_format @ ''][height<='' @ size' @
              '']+bestaudio[ext='' @ audio_format @ '']/best[ext='' @ video_format @ '']''
         else ''bestaudio[ext='' @ audio_format @ '']'')
      in \<lparr> opt_format = format_spec,
           opt_outtmpl = path_join output_dir ''%(title)s.%(ext)s'',
           opt_quiet = (log_level = ''NONE''),
           opt_noplaylist = True,
           opt_merge_output_format = (if type' = ''video'' then video_format else audio_format),
           opt_ignoreerrors = True,
           opt_no_warnings = False,
           opt_verbose = (log_level = ''DEBUG''),
           opt_postprocessors =
             (if type' = ''audio''
              then Some [[(''key'', ''FFmpegExtractAudio''),
                          (''preferredcodec'', audio_format),
                          (''preferredquality'', ''192'')]]
              else if type' = ''video''
              then Some [[(''key'', ''FFmpegVideoConvertor''),
                          (''preferedformat'', video_format)]]
              else None) \<rparr>)"

text \<open>
  The body of the \<open>try\<close> block: \<open>Inl\<close> is an exception leaving it, \<open>Inr\<close> the pair
  it returns. A title is a string or \<open>None\<close>.
\<close>

definition download_attempt :: "engine_run \<Rightarrow> string + (bool \<times> string option)" where
  "download_attempt run =
     (case run_open run of
        Raise e \<Rightarrow> Inl e
      | Return _ \<Rightarrow>
          (case run_extract_info run of
             Raise e \<Rightarrow> Inl e
           | Return None \<Rightarrow> Inr (False, Some ''Unknown (Info extraction failed)'')
           | Return (Some info_dict) \<Rightarrow>
               (let title = dict_get info_dict ''title'' (Some ''Unknown Title'')
                in case run_download run of
                     Raise e \<Rightarrow> Inl e
                   | Return _ \<Rightarrow>
                       (case run_matching_files run of
                          Raise e \<Rightarrow> Inl e
                        | Return files \<Rightarrow>
                            if files \<noteq> [] then Inr (True, title)
                            else Inr (False, title)))))"

definition download_video ::
  "engine \<Rightarrow> string \<Rightarrow> string \<Rightarrow> string \<Rightarrow> string \<Rightarrow> string \<Rightarrow> string \<Rightarrow> string \<Rightarrow> string \<Rightarrow>
   event list \<Rightarrow> (bool \<times> string option) \<times> event list" where
  "download_video eng video_url output_dir type' size' language video_format audio_format
     log_level history =
     (let download_opts =
            make_download_opts output_dir type' size' video_format audio_format log_level;
          run = eng history video_url download_opts;
          history' = history @ [DownloadVideo video_url]
      in case download_attempt run of
           Inl e \<Rightarrow> ((False, Some (''Unknown (Error: '' @ e @ '')'')), history')
         | Inr r \<Rightarrow> (r, history'))"

section \<open>get\_youtube (lines 279--410)\<close>

text \<open>\<open>str(n)\<close> for integers, and \<open>f"{x}"\<close> for a value that is a string or \<open>None\<close>.\<close>

fun str_nat :: "nat \<Rightarrow> string" where
  "str_nat n =
     (if n < 10 then [''0123456789'' ! n]
      else str_nat (n div 10) @ [''0123456789'' ! (n mod 10)])"

declare str_nat.simps [simp del]

definition str_int :: "int \<Rightarrow> string" where
  "str_int i = (if i < 0 then ''-'' @ str_nat (nat (- i)) else str_nat (nat i))"

definition fmt :: "string option \<Rightarrow> string" where
  "fmt v = (case v of None \<Rightarrow> ''None'' | Some s \<Rightarrow> s)"

definition nl :: string where
  "nl = [CHR 0x0A]"

text \<open>
  The configuration is what \<open>load_config\<close> returns: a dictionary whose keys may be
  absent, and the project root. The clock readings of lines 359 and 367 and the
  rendering of the success rate, a floating-point format, are given by the
  environment.
\<close>

record config =
  YT_CHANNEL :: "string option"
  DOWNLOADS :: "string option"
  MAX_DOWNLOADS :: "int option"

record env =
  env_config :: config
  root_dir :: string
  now_stamp :: string
  now_generated :: string
  playlist_engine :: "string \<Rightarrow> extract_result"
  download_engine :: engine
  format_rate :: "nat \<Rightarrow> nat \<Rightarrow> string"

text \<open>Lines 328--347: the URL list before the emptiness checks.\<close>

definition candidate_urls ::
  "(string \<Rightarrow> extract_result) \<Rightarrow> string \<Rightarrow> int \<Rightarrow> error + string list" where
  "candidate_urls ei url max_downloads =
     (if str_in ''list='' url then
        bind (extract_urls_from_playlist ei url max_downloads)
          (\<lambda>url_ls.
             if url_ls = [] \<and> str_in ''watch?v='' url
             then bind (split_field ''watch?v='' url)
                    (\<lambda>video_id. Inr (url_ls @ [watch_url video_id]))
             else Inr url_ls)
      else bind (get_video_url url) (\<lambda>clean_url. Inr [clean_url]))"

text \<open>Lines 349--352: the first emptiness check, which appends the original URL.\<close>

definition resolved_urls ::
  "(string \<Rightarrow> extract_result) \<Rightarrow> string \<Rightarrow> int \<Rightarrow> error + string list" where
  "resolved_urls ei url max_downloads =
     bind (candidate_urls ei url max_downloads)
       (\<lambda>url_ls. if url_ls = [] then Inr (url_ls @ [url]) else Inr url_ls)"

record loop_state =
  trace :: "event list"
  success_count :: nat
  fail_count :: nat
  report_lines :: "string list"

text \<open>The body of the loop of lines 374--393.\<close>

definition process_video ::
  "engine \<Rightarrow> string \<Rightarrow> string \<Rightarrow> string \<Rightarrow> string \<Rightarrow> string \<Rightarrow> string \<Rightarrow> string \<Rightarrow> string \<Rightarrow>
   loop_state \<Rightarrow> loop_state" where
  "process_video eng output_dir type' size' language video audio log_level video_url st =
     (case download_video eng video_url output_dir type' size' language video audio
             log_level (trace st) of
        ((success, title), trace') \<Rightarrow>
          if success
          then st\<lparr> trace := trace',
                   success_count := success_count st + 1,
                   report_lines := report_lines st @
                     [''SUCCESS: '' @ fmt title @ '' - '' @ video_url @ nl] \<rparr>
          else st\<lparr> trace := trace',
                   fail_count := fail_count st + 1,
                   report_lines := report_lines st @
                     [''FAILED: '' @ video_url @ '' - Unable to download'' @ nl] \<rparr>)"

definition report_header :: "string \<Rightarrow> string \<Rightarrow> int \<Rightarrow> string list" where
  "report_header generated type' max_downloads =
     [''YouTube Download Report'' @ nl,
      ''Generated: '' @ generated @ nl,
      ''Download Type: '' @ type' @ nl,
      ''Max Downloads: '' @ str_int max_downloads @ nl,
      replicate 50 (CHR ''='') @ nl @ nl]"

definition report_summary :: "(nat \<Rightarrow> nat \<Rightarrow> string) \<Rightarrow> nat \<Rightarrow> nat \<Rightarrow> nat \<Rightarrow> string list" where
  "report_summary rate n successes failures =
     [nl @ replicate 50 (CHR ''='') @ nl,
      ''Download Summary:'' @ nl,
      ''Total Processed: '' @ str_nat n @ nl,
      ''Total Success: '' @ str_nat successes @ nl,
      ''Total Failures: '' @ str_nat failures @ nl] @
     (if n > 0 then [''Success Rate: '' @ rate successes n @ ''%'' @ nl] else [])"

text \<open>
  \<open>get_youtube\<close> returns \<open>(success_count, fail_count, report_path)\<close>; the model pairs
  it with the trace of the run. A missing \<open>url\<close> argument is \<open>None\<close>.
\<close>

definition get_youtube ::
  "env \<Rightarrow> string option \<Rightarrow> string \<Rightarrow> string \<Rightarrow> string \<Rightarrow> string \<Rightarrow> string \<Rightarrow> string \<Rightarrow>
   error + ((nat \<times> nat \<times> string option) \<times> event list)" where
  "get_youtube env url type' size' language video audio log_level =
     (let url = (case url of None \<Rightarrow> YT_CHANNEL (env_config env) | Some u \<Rightarrow> Some u);
          downloads_dir =
            (case DOWNLOADS (env_config env) of None \<Rightarrow> ''downloads'' | Some d \<Rightarrow> d);
          output_dir = path_join (root_dir env) downloads_dir
      in if type' \<notin> set [''video'', ''audio''] then Inr ((0, 0, None), [])
         else
           (let max_downloads =
                  (case MAX_DOWNLOADS (env_config env) of None \<Rightarrow> 5 | Some m \<Rightarrow> m)
            in case url of
                 None \<Rightarrow> Inl TypeError
               | Some url \<Rightarrow>
                   bind (resolved_urls (playlist_engine env) url max_downloads)
                     (\<lambda>url_ls.
                        if url_ls = [] then Inr ((0, 0, None), [])
                        else
                          (let report_path =
                                 path_join output_dir (''report_'' @ now_stamp env @ ''.txt'');
                               st = fold (process_video (download_engine env) output_dir type'
                                            size' language video audio log_level)
                                      url_ls
                                      \<lparr> trace = [], success_count = 0, fail_count = 0,
                                        report_lines =
                                          report_header (now_generated env) type'
                                            max_downloads \<rparr>;
                               lines = report_lines st @
                                 report_summary (format_rate env) (length url_ls)
                                   (success_count st) (fail_count st)
                           in Inr ((success_count st, fail_count st, Some report_path),
                                   trace st @ [WriteReport report_path lines])))))"

section \<open>Vocabulary of the properties\<close>

text \<open>
  The text of \<open>s\<close> before the first occurrence of \<open>sep\<close> (all of \<open>s\<close> when there
  is none), and the text after that occurrence.
\<close>

fun before_first :: "string \<Rightarrow> string \<Rightarrow> string" where
  "before_first sep [] = []"
| "before_first sep (c # cs) =
     (if prefix sep (c # cs) then [] else c # before_first sep cs)"

fun after_first :: "string \<Rightarrow> string \<Rightarrow> string" where
  "after_first sep [] = []"
| "after_first sep (c # cs) =
     (if prefix sep (c # cs) then drop (length sep) (c # cs) else after_first sep cs)"

text \<open>
  What \<open>url.split(sep)[1].split('&')[0]\<close> picks: the text after the first \<open>sep\<close>,
  up to the next \<open>sep\<close> or \<open>&\<close>, or to the end.
\<close>

definition video_id_of :: "string \<Rightarrow> string \<Rightarrow> string" where
  "video_id_of sep url =
     takeWhile (\<lambda>x. x \<noteq> CHR ''&'') (before_first sep (after_first sep url))"

text \<open>
  The video id as the specification words it for \<open>get_video_url\<close>: the text between
  the first occurrence of \<open>v=\<close> and the next \<open>&\<close>.
\<close>

definition claimed_video_id :: "string \<Rightarrow> string" where
  "claimed_video_id url = takeWhile (\<lambda>x. x \<noteq> CHR ''&'') (after_first ''v='' url)"

text \<open>Names for the values \<open>get_youtube\<close> computes in lines 299--304, 322 and 361.\<close>

definition effective_url :: "env \<Rightarrow> string option \<Rightarrow> string option" where
  "effective_url env url = (case url of None \<Rightarrow> YT_CHANNEL (env_config env) | Some u \<Rightarrow> Some u)"

definition output_dir_of :: "env \<Rightarrow> string" where
  "output_dir_of env =
     path_join (root_dir env)
       (case DOWNLOADS (env_config env) of None \<Rightarrow> ''downloads'' | Some d \<Rightarrow> d)"

definition report_path_of :: "env \<Rightarrow> string" where
  "report_path_of env = path_join (output_dir_of env) (''report_'' @ now_stamp env @ ''.txt'')"

definition max_downloads_of :: "env \<Rightarrow> int" where
  "max_downloads_of env = (case MAX_DOWNLOADS (env_config env) of None \<Rightarrow> 5 | Some m \<Rightarrow> m)"

text \<open>
  A line of the report is one of the strings given to \<open>writelines\<close>. A result line
  starts with \<open>SUCCESS:\<close> or \<open>FAILED:\<close>; the result line of a URL is the one the
  loop appends for it.
\<close>

definition is_result_line :: "string \<Rightarrow> bool" where
  "is_result_line l = (prefix ''SUCCESS:'' l \<or> prefix ''FAILED:'' l)"

definition result_line_for :: "string \<Rightarrow> string \<Rightarrow> bool" where
  "result_line_for video_url l =
     (l = ''FAILED: '' @ video_url @ '' - Unable to download'' @ nl \<or>
      prefix ''SUCCESS: '' l \<and> suffix ('' - '' @ video_url @ nl) l)"

text \<open>The URLs \<open>download_video\<close> was called with, in the order of the calls.\<close>

fun downloaded_urls :: "event list \<Rightarrow> string list" where
  "downloaded_urls [] = []"
| "downloaded_urls (DownloadVideo u # es) = u # downloaded_urls es"
| "downloaded_urls (WriteReport p ls # es) = downloaded_urls es"

text \<open>
  The engine raises \<open>e\<close> at a call the \<open>try\<close> block reaches; the engine returns no
  metadata (\<open>extract_info\<close> gives \<open>None\<close>).
\<close>

definition engine_raises :: "engine_run \<Rightarrow> string \<Rightarrow> bool" where
  "engine_raises run e =
     (case run_open run of
        Raise e1 \<Rightarrow> e1 = e
      | Return _ \<Rightarrow>
          (case run_extract_info run of
             Raise e2 \<Rightarrow> e2 = e
           | Return None \<Rightarrow> False
           | Return (Some _) \<Rightarrow>
               (case run_download run of
                  Raise e3 \<Rightarrow> e3 = e
                | Return _ \<Rightarrow>
                    (case run_matching_files run of
                       Raise e4 \<Rightarrow> e4 = e
                     | Return _ \<Rightarrow> False))))"

definition engine_no_metadata :: "engine_run \<Rightarrow> bool" where
  "engine_no_metadata run =
     (case run_open run of
        Raise _ \<Rightarrow> False
      | Return _ \<Rightarrow>
          (case run_extract_info run of
             Raise _ \<Rightarrow> False
           | Return None \<Rightarrow> True
           | Return (Some _) \<Rightarrow> False))"

section \<open>Example inputs\<close>

text \<open>
  A playlist of six entries (one \<open>None\<close>, one repeated id), an engine that raises on
  one URL and finds no metadata for another, and an environment built from them.
\<close>

definition sample_playlist :: "string \<Rightarrow> extract_result" where
  "sample_playlist playlist_url =
     InfoEntries [Some [(''id'', Some ''a'')], None, Some [(''id'', Some ''b'')],
                  Some [(''id'', Some ''a'')], Some [(''id'', Some ''c'')],
                  Some [(''id'', Some ''d'')]]"

definition sample_engine :: engine where
  "sample_engine history video_url opts =
     (if video_url = ''https://www.youtube.com/watch?v=b''
      then \<lparr> run_open = Return (), run_extract_info = Raise ''boom'',
             run_download = Return (), run_matching_files = Return [] \<rparr>
      else if video_url = ''https://www.youtube.com/watch?v=c''
      then \<lparr> run_open = Return (), run_extract_info = Return None,
             run_download = Return (), run_matching_files = Return [] \<rparr>
      else \<lparr> run_open = Return (),
             run_extract_info = Return (Some [(''title'', Some ''T'')]),
             run_download = Return (), run_matching_files = Return [''T.mp4''] \<rparr>)"

definition sample_env :: env where
  "sample_env =
     \<lparr> env_config = \<lparr> YT_CHANNEL = None, DOWNLOADS = None, MAX_DOWNLOADS = Some 3 \<rparr>,
       root_dir = ''/proj'',
       now_stamp = ''20240101_000000'',
       now_generated = ''2024-01-01 00:00:00'',
       playlist_engine = sample_playlist,
       download_engine = sample_engine,
       format_rate = (\<lambda>successes n. ''33.3'') \<rparr>"

definition sample_url :: string where
  "sample_url = ''https://www.youtube.com/watch?v=a&list=PL1&index=2''"

section \<open>String primitives\<close>

text \<open>
  \<open>split\<close> never returns an empty list; its first part is the text before the first
  separator, and when the separator occurs the rest is the split of the text after it.
  So the second part exists exactly when the separator occurs, and no index of the
  script goes out of range.
\<close>

lemma str_split_not_Nil: "str_split sep s \<noteq> []"
  by (induction sep s rule: str_split.induct) (auto split: list.splits)

lemma hd_str_split: "sep \<noteq> [] \<Longrightarrow> hd (str_split sep s) = before_first sep s"
  by (induction sep s rule: str_split.induct) (auto split: list.splits simp: str_split_not_Nil)

lemma item_0_str_split: "sep \<noteq> [] \<Longrightarrow> item (str_split sep s) 0 = Inr (before_first sep s)"
  using hd_str_split[of sep s] str_split_not_Nil[of sep s]
  by (cases "str_split sep s") (auto simp: item_def)

lemma tl_str_split:
  "sep \<noteq> [] \<Longrightarrow> str_in sep s \<Longrightarrow> tl (str_split sep s) = str_split sep (after_first sep s)"
proof (induction sep s rule: str_split.induct)
  case (1 sep)
  then show ?case by simp
next
  case (2 sep c cs)
  show ?case
  proof (cases "prefix sep (c # cs)")
    case True
    with 2 show ?thesis by (cases sep) auto
  next
    case False
    with 2 show ?thesis by (auto split: list.splits simp: str_split_not_Nil)
  qed
qed

lemma item_1_str_split:
  assumes "sep \<noteq> []" "str_in sep s"
  shows "item (str_split sep s) (Suc 0) = Inr (before_first sep (after_first sep s))"
proof -
  obtain p ps where ps: "str_split sep s = p # ps"
    using str_split_not_Nil[of sep s] by (cases "str_split sep s") auto
  then have "ps = str_split sep (after_first sep s)"
    using tl_str_split[OF assms] by simp
  moreover obtain q qs where "str_split sep (after_first sep s) = q # qs"
    using str_split_not_Nil[of sep "after_first sep s"] by (cases "str_split sep (after_first sep s)") auto
  ultimately show ?thesis
    using ps hd_str_split[OF assms(1), of "after_first sep s"] by (simp add: item_def)
qed

lemma before_first_single: "before_first [c] s = takeWhile (\<lambda>x. x \<noteq> c) s"
  by (induction s) auto

lemma split_field_eq:
  assumes "sep \<noteq> []" "str_in sep s"
  shows "split_field sep s = Inr (takeWhile (\<lambda>x. x \<noteq> CHR ''&'') (before_first sep (after_first sep s)))"
  by (simp add: split_field_def bind_def item_1_str_split[OF assms] item_0_str_split before_first_single)

lemma str_in_iff: "str_in sub s \<longleftrightarrow> (\<exists>p q. s = p @ sub @ q)"
proof (induction s)
  case Nil
  then show ?case by auto
next
  case (Cons c cs)
  show ?case
  proof
    assume "str_in sub (c # cs)"
    then consider "prefix sub (c # cs)" | "str_in sub cs" by auto
    then show "\<exists>p q. c # cs = p @ sub @ q"
    proof cases
      case 1
      then obtain q where "c # cs = sub @ q" by (auto simp: prefix_def)
      then have "c # cs = [] @ sub @ q" by simp
      then show ?thesis by blast
    next
      case 2
      then obtain p q where "cs = p @ sub @ q" using Cons.IH by auto
      then have "c # cs = (c # p) @ sub @ q" by simp
      then show ?thesis by blast
    qed
  next
    assume "\<exists>p q. c # cs = p @ sub @ q"
    then obtain p q where pq: "c # cs = p @ sub @ q" by auto
    show "str_in sub (c # cs)"
    proof (cases p)
      case Nil
      then have "c # cs = sub @ q" using pq by simp
      then have "prefix sub (c # cs)" by (rule prefixI)
      then show ?thesis by simp
    next
      case (Cons a p')
      then have "cs = p' @ sub @ q" using pq by simp
      then show ?thesis using Cons.IH by auto
    qed
  qed
qed

lemma str_in_set: "str_in sub s \<Longrightarrow> set sub \<subseteq> set s"
  by (auto simp: str_in_iff)

lemma before_sep_after:
  "str_in sep s \<Longrightarrow> s = before_first sep s @ sep @ after_first sep s"
  by (induction s) (auto simp: prefix_def)

lemma before_first_least:
  "s = p @ sep @ q \<Longrightarrow> length (before_first sep s) \<le> length p"
proof (induction s arbitrary: p)
  case Nil
  then show ?case by simp
next
  case (Cons c cs)
  show ?case
  proof (cases "prefix sep (c # cs)")
    case True
    then show ?thesis by simp
  next
    case False
    then have "p \<noteq> []" using Cons.prems by (auto simp: prefix_def)
    then obtain p' where p: "p = c # p'" using Cons.prems by (cases p) auto
    then have "cs = p' @ sep @ q" using Cons.prems by simp
    then have "length (before_first sep cs) \<le> length p'" by (rule Cons.IH)
    then show ?thesis using False p by simp
  qed
qed

lemma before_first_none: "\<not> str_in sep s \<Longrightarrow> before_first sep s = s"
  by (induction s) auto

lemma split_field_video_id:
  "sep \<noteq> [] \<Longrightarrow> str_in sep s \<Longrightarrow> split_field sep s = Inr (video_id_of sep s)"
  by (simp add: split_field_eq video_id_of_def)

lemma amp_notin_video_id: "CHR ''&'' \<notin> set (video_id_of sep s)"
  unfolding video_id_of_def by (auto dest: set_takeWhileD)

lemma amp_notin_watch_url: "CHR ''&'' \<notin> set (watch_url (video_id_of sep s))"
  using amp_notin_video_id[of sep s] by (simp add: watch_url_def)

lemma no_list_in_watch_url: "\<not> str_in ''&list='' (watch_url (video_id_of sep s))"
  using amp_notin_watch_url[of sep s] str_in_set[of "''&list=''" "watch_url (video_id_of sep s)"]
  by auto

lemma list_imp_amp_list: "str_in ''&list='' s \<Longrightarrow> str_in ''list='' s"
proof -
  assume "str_in ''&list='' s"
  then obtain p q where "s = p @ ''&list='' @ q" by (auto simp: str_in_iff)
  then have "s = (p @ ''&'') @ ''list='' @ q" by simp
  then show ?thesis unfolding str_in_iff by blast
qed

section \<open>Facts about get\_video\_url\<close>

lemma get_video_url_playlist:
  "str_in ''&list='' u \<Longrightarrow> str_in ''v='' u \<Longrightarrow>
     get_video_url u = Inr (watch_url (video_id_of ''v='' u))"
  by (simp add: get_video_url_def split_field_video_id bind_def)

lemma get_video_url_other:
  "\<not> (str_in ''&list='' u \<and> str_in ''v='' u) \<Longrightarrow> get_video_url u = Inr u"
  by (auto simp add: get_video_url_def)

section \<open>Facts about extract\_urls\_from\_playlist\<close>

text \<open>
  The loop keeps the list free of duplicates and keeps every element a watch URL;
  the final slice can only drop elements.
\<close>

lemma add_entry_distinct: "distinct ul \<Longrightarrow> distinct (add_entry m e ul)"
  by (auto simp: add_entry_def Let_def split: option.splits)

lemma add_entry_watch:
  "\<forall>u \<in> set ul. prefix ''https://www.youtube.com/watch?v='' u \<Longrightarrow>
   \<forall>u \<in> set (add_entry m e ul). prefix ''https://www.youtube.com/watch?v='' u"
  by (auto simp: add_entry_def Let_def watch_url_def split: option.splits)

lemma fold_add_entry_distinct:
  "distinct ul \<Longrightarrow> distinct (fold (add_entry m) es ul)"
  by (induction es arbitrary: ul) (simp_all add: add_entry_distinct)

lemma fold_add_entry_watch:
  "\<forall>u \<in> set ul. prefix ''https://www.youtube.com/watch?v='' u \<Longrightarrow>
   \<forall>u \<in> set (fold (add_entry m) es ul). prefix ''https://www.youtube.com/watch?v='' u"
proof (induction es arbitrary: ul)
  case Nil
  then show ?case by simp
next
  case (Cons e es)
  from add_entry_watch[OF Cons.prems] have
    "\<forall>u \<in> set (add_entry m e ul). prefix ''https://www.youtube.com/watch?v='' u" .
  then show ?case using Cons.IH by simp
qed

lemma extract_playlist_distinct:
  "distinct ul \<Longrightarrow> distinct (extract_playlist ei url m ul)"
  by (auto simp: extract_playlist_def fold_add_entry_distinct split: sum.splits extract_result.splits)

lemma extract_playlist_watch:
  "\<forall>u \<in> set ul. prefix ''https://www.youtube.com/watch?v='' u \<Longrightarrow>
   \<forall>u \<in> set (extract_playlist ei url m ul). prefix ''https://www.youtube.com/watch?v='' u"
  unfolding extract_playlist_def
  by (simp add: fold_add_entry_watch split: sum.splits extract_result.splits)

lemma slice_to_length: "0 \<le> n \<Longrightarrow> int (length (slice_to xs n)) \<le> n"
  by (simp add: slice_to_def)

lemma slice_to_distinct: "distinct xs \<Longrightarrow> distinct (slice_to xs n)"
  by (simp add: slice_to_def)

lemma slice_to_set: "set (slice_to xs n) \<subseteq> set xs"
  by (auto simp: slice_to_def dest: in_set_takeD)

lemma slice_to_all: "\<forall>u \<in> set xs. P u \<Longrightarrow> \<forall>u \<in> set (slice_to xs n). P u"
  using slice_to_set[of xs n] by blast

lemma seed_watch: "\<forall>u \<in> set [watch_url v]. prefix ''https://www.youtube.com/watch?v='' u"
  by (simp add: watch_url_def)

lemma extract_urls_cases:
  "(str_in ''watch?v='' url \<and> str_in ''list='' url \<and> m = 1 \<and>
      extract_urls_from_playlist ei url m = Inr [watch_url (video_id_of ''watch?v='' url)]) \<or>
   (str_in ''watch?v='' url \<and> str_in ''list='' url \<and> m \<noteq> 1 \<and>
      extract_urls_from_playlist ei url m =
        Inr (slice_to (extract_playlist ei url m [watch_url (video_id_of ''watch?v='' url)]) m)) \<or>
   (\<not> (str_in ''watch?v='' url \<and> str_in ''list='' url) \<and>
      extract_urls_from_playlist ei url m = Inr (slice_to (extract_playlist ei url m []) m))"
  by (auto simp: extract_urls_from_playlist_def split_field_video_id bind_def Let_def)

section \<open>Facts about download\_video\<close>

lemma download_video_trace:
  "snd (download_video eng u od ty sz la vf af ll tr) = tr @ [DownloadVideo u]"
  by (simp add: download_video_def Let_def split: sum.splits)

lemma download_video_raises:
  "engine_raises (eng h u (make_download_opts od ty sz vf af ll)) e \<Longrightarrow>
   download_video eng u od ty sz la vf af ll h =
     ((False, Some (''Unknown (Error: '' @ e @ '')'')), h @ [DownloadVideo u])"
  by (auto simp: engine_raises_def download_video_def download_attempt_def Let_def
      split: outcome.splits option.splits)

lemma download_video_no_metadata:
  "engine_no_metadata (eng h u (make_download_opts od ty sz vf af ll)) \<Longrightarrow>
   download_video eng u od ty sz la vf af ll h =
     ((False, Some ''Unknown (Info extraction failed)''), h @ [DownloadVideo u])"
  by (auto simp: engine_no_metadata_def download_video_def download_attempt_def Let_def
      split: outcome.splits option.splits)

section \<open>Facts about the download loop and the report\<close>

text \<open>
  Each iteration calls \<open>download_video\<close> once, appends one result line and bumps one
  of the two counters. By induction over the URL list the loop calls the engine on
  the URLs in order and appends their result lines in order.
\<close>

lemma success_line_for:
  "result_line_for u (''SUCCESS: '' @ t @ '' - '' @ u @ nl)"
proof -
  have "suffix ('' - '' @ u @ nl) ((''SUCCESS: '' @ t) @ ('' - '' @ u @ nl))"
    by (rule suffixI) simp
  moreover have "prefix ''SUCCESS: '' (''SUCCESS: '' @ (t @ '' - '' @ u @ nl))"
    by (rule prefixI) simp
  ultimately show ?thesis by (simp add: result_line_for_def)
qed

lemma failed_line_for:
  "result_line_for u (''FAILED: '' @ u @ '' - Unable to download'' @ nl)"
  by (simp add: result_line_for_def)

lemma process_video_success:
  assumes "download_video eng u od ty sz la vi au ll (trace st) = ((True, title), tr')"
  shows "process_video eng od ty sz la vi au ll u st =
           st\<lparr> trace := tr', success_count := success_count st + 1,
                report_lines := report_lines st @ [''SUCCESS: '' @ fmt title @ '' - '' @ u @ nl] \<rparr>"
  using assms by (simp add: process_video_def)

lemma process_video_failure:
  assumes "download_video eng u od ty sz la vi au ll (trace st) = ((False, title), tr')"
  shows "process_video eng od ty sz la vi au ll u st =
           st\<lparr> trace := tr', fail_count := fail_count st + 1,
                report_lines := report_lines st @
                  [''FAILED: '' @ u @ '' - Unable to download'' @ nl] \<rparr>"
  using assms by (simp add: process_video_def)

lemma process_video_step:
  "trace (process_video eng od ty sz la vi au ll u st) = trace st @ [DownloadVideo u] \<and>
   (\<exists>l. report_lines (process_video eng od ty sz la vi au ll u st) = report_lines st @ [l] \<and>
        result_line_for u l \<and>
        success_count (process_video eng od ty sz la vi au ll u st) =
          success_count st + (if prefix ''SUCCESS:'' l then 1 else 0) \<and>
        fail_count (process_video eng od ty sz la vi au ll u st) =
          fail_count st + (if prefix ''FAILED:'' l then 1 else 0))"
proof -
  obtain success title tr' where dv:
    "download_video eng u od ty sz la vi au ll (trace st) = ((success, title), tr')"
    by (cases "download_video eng u od ty sz la vi au ll (trace st)") auto
  then have tr': "tr' = trace st @ [DownloadVideo u]"
    using download_video_trace[of eng u od ty sz la vi au ll "trace st"] by simp
  show ?thesis
  proof (cases success)
    case True
    let ?l = "''SUCCESS: '' @ fmt title @ '' - '' @ u @ nl"
    have "process_video eng od ty sz la vi au ll u st =
           st\<lparr> trace := tr', success_count := success_count st + 1,
                report_lines := report_lines st @ [?l] \<rparr>"
      using dv True by (simp add: process_video_success)
    moreover have "result_line_for u ?l" by (rule success_line_for)
    moreover have "prefix ''SUCCESS:'' ?l" "\<not> prefix ''FAILED:'' ?l" by simp_all
    ultimately show ?thesis using tr' by auto
  next
    case False
    let ?l = "''FAILED: '' @ u @ '' - Unable to download'' @ nl"
    have "process_video eng od ty sz la vi au ll u st =
           st\<lparr> trace := tr', fail_count := fail_count st + 1,
                report_lines := report_lines st @ [?l] \<rparr>"
      using dv False by (simp add: process_video_failure)
    moreover have "result_line_for u ?l" by (rule failed_line_for)
    moreover have "\<not> prefix ''SUCCESS:'' ?l" "prefix ''FAILED:'' ?l" by simp_all
    ultimately show ?thesis using tr' by auto
  qed
qed

lemma loop_result:
  "\<exists>body. trace (fold (process_video eng od ty sz la vi au ll) urls st) =
             trace st @ map DownloadVideo urls \<and>
          report_lines (fold (process_video eng od ty sz la vi au ll) urls st) =
             report_lines st @ body \<and>
          list_all2 result_line_for urls body \<and>
          success_count (fold (process_video eng od ty sz la vi au ll) urls st) =
             success_count st + length (filter (prefix ''SUCCESS:'') body) \<and>
          fail_count (fold (process_video eng od ty sz la vi au ll) urls st) =
             fail_count st + length (filter (prefix ''FAILED:'') body)"
proof (induction urls arbitrary: st)
  case Nil
  then show ?case by simp
next
  case (Cons u urls)
  let ?st1 = "process_video eng od ty sz la vi au ll u st"
  let ?st2 = "fold (process_video eng od ty sz la vi au ll) urls ?st1"
  obtain l where l:
    "trace ?st1 = trace st @ [DownloadVideo u]"
    "report_lines ?st1 = report_lines st @ [l]"
    "result_line_for u l"
    "success_count ?st1 = success_count st + (if prefix ''SUCCESS:'' l then 1 else 0)"
    "fail_count ?st1 = fail_count st + (if prefix ''FAILED:'' l then 1 else 0)"
    using process_video_step[of eng od ty sz la vi au ll u st] by blast
  obtain body where body:
    "trace ?st2 = trace ?st1 @ map DownloadVideo urls"
    "report_lines ?st2 = report_lines ?st1 @ body"
    "list_all2 result_line_for urls body"
    "success_count ?st2 = success_count ?st1 + length (filter (prefix ''SUCCESS:'') body)"
    "fail_count ?st2 = fail_count ?st1 + length (filter (prefix ''FAILED:'') body)"
    using Cons.IH[of ?st1] by blast
  have "trace ?st2 = trace st @ map DownloadVideo (u # urls)"
    using l(1) body(1) by simp
  moreover have "report_lines ?st2 = report_lines st @ (l # body)"
    using l(2) body(2) by simp
  moreover have "list_all2 result_line_for (u # urls) (l # body)"
    using l(3) body(3) by simp
  moreover have "success_count ?st2 =
      success_count st + length (filter (prefix ''SUCCESS:'') (l # body))"
    using l(4) body(4) by simp
  moreover have "fail_count ?st2 =
      fail_count st + length (filter (prefix ''FAILED:'') (l # body))"
    using l(5) body(5) by simp
  ultimately show ?case unfolding fold_simps(2) comp_def by blast
qed

lemma candidate_urls_total: "\<exists>ls. candidate_urls ei url m = Inr ls"
proof (cases "str_in ''list='' url")
  case True
  obtain ls where ls: "extract_urls_from_playlist ei url m = Inr ls"
    using extract_urls_cases[of url m ei] by blast
  show ?thesis
  proof (cases "ls = [] \<and> str_in ''watch?v='' url")
    case True
    then show ?thesis
      using ls \<open>str_in ''list='' url\<close>
      by (simp add: candidate_urls_def bind_def split_field_video_id)
  next
    case False
    then show ?thesis
      using ls \<open>str_in ''list='' url\<close>
      by (auto simp add: candidate_urls_def bind_def)
  qed
next
  case False
  then have "\<not> str_in ''&list='' url" using list_imp_amp_list by blast
  then have "get_video_url url = Inr url" by (simp add: get_video_url_other)
  then show ?thesis using False by (simp add: candidate_urls_def bind_def)
qed

lemma resolved_urls_nonempty: "\<exists>ls. resolved_urls ei url m = Inr ls \<and> ls \<noteq> []"
proof -
  obtain c where "candidate_urls ei url m = Inr c"
    using candidate_urls_total by blast
  then show ?thesis by (simp add: resolved_urls_def bind_def)
qed

lemma get_youtube_invalid_type:
  "type' \<notin> set [''video'', ''audio''] \<Longrightarrow>
   get_youtube env url type' sz la vi au ll = Inr ((0, 0, None), [])"
  by (simp add: get_youtube_def Let_def)

lemma get_youtube_valid:
  assumes ty: "type' \<in> set [''video'', ''audio'']"
    and url: "effective_url env url = Some u"
    and res: "resolved_urls (playlist_engine env) u (max_downloads_of env) = Inr url_ls"
  shows "get_youtube env url type' sz la vi au ll =
     (let st = fold (process_video (download_engine env) (output_dir_of env) type' sz la vi au ll)
                 url_ls
                 \<lparr> trace = [], success_count = 0, fail_count = 0,
                   report_lines = report_header (now_generated env) type' (max_downloads_of env) \<rparr>
      in Inr ((success_count st, fail_count st, Some (report_path_of env)),
              trace st @ [WriteReport (report_path_of env)
                (report_lines st @ report_summary (format_rate env) (length url_ls)
                   (success_count st) (fail_count st))]))"
proof -
  have ne: "url_ls \<noteq> []"
    using resolved_urls_nonempty[of "playlist_engine env" u "max_downloads_of env"] res by simp
  have u: "(case url of None \<Rightarrow> YT_CHANNEL (env_config env) | Some u \<Rightarrow> Some u) = Some u"
    using url by (simp add: effective_url_def)
  show ?thesis
    using ty ne res
    by (simp add: get_youtube_def Let_def u bind_def report_path_of_def output_dir_of_def
          max_downloads_of_def)
qed

lemma result_line_kind:
  "result_line_for u l \<Longrightarrow>
     (prefix ''SUCCESS:'' l \<and> \<not> prefix ''FAILED:'' l) \<or>
     (prefix ''FAILED:'' l \<and> \<not> prefix ''SUCCESS:'' l)"
  by (auto simp: result_line_for_def prefix_def)

lemma result_lines_count:
  "list_all2 result_line_for urls body \<Longrightarrow>
   length (filter (prefix ''SUCCESS:'') body) + length (filter (prefix ''FAILED:'') body)
     = length urls"
proof (induction rule: list_all2_induct)
  case Nil
  then show ?case by simp
next
  case (Cons u urls l body)
  then show ?case using result_line_kind[of u l] by auto
qed

lemma result_lines_all:
  "list_all2 result_line_for urls body \<Longrightarrow> \<forall>l \<in> set body. is_result_line l"
proof (induction rule: list_all2_induct)
  case Nil
  then show ?case by simp
next
  case (Cons u urls l body)
  then show ?case using result_line_kind[of u l] by (auto simp: is_result_line_def)
qed

lemma get_youtube_run:
  assumes ty: "type' \<in> set [''video'', ''audio'']"
    and url: "effective_url env url = Some u"
    and res: "resolved_urls (playlist_engine env) u (max_downloads_of env) = Inr url_ls"
  shows "\<exists>body.
     list_all2 result_line_for url_ls body \<and>
     get_youtube env url type' sz la vi au ll =
       Inr ((length (filter (prefix ''SUCCESS:'') body),
             length (filter (prefix ''FAILED:'') body),
             Some (report_path_of env)),
            map DownloadVideo url_ls @
            [WriteReport (report_path_of env)
               (report_header (now_generated env) type' (max_downloads_of env) @ body @
                report_summary (format_rate env) (length url_ls)
                  (length (filter (prefix ''SUCCESS:'') body))
                  (length (filter (prefix ''FAILED:'') body)))])"
proof -
  let ?init = "\<lparr> trace = [], success_count = 0, fail_count = 0,
       report_lines = report_header (now_generated env) type' (max_downloads_of env) \<rparr>"
  let ?st = "fold (process_video (download_engine env) (output_dir_of env) type' sz la vi au ll)
               url_ls ?init"
  obtain body where body:
    "trace ?st = trace ?init @ map DownloadVideo url_ls"
    "report_lines ?st = report_lines ?init @ body"
    "list_all2 result_line_for url_ls body"
    "success_count ?st = success_count ?init + length (filter (prefix ''SUCCESS:'') body)"
    "fail_count ?st = fail_count ?init + length (filter (prefix ''FAILED:'') body)"
    using loop_result[of "download_engine env" "output_dir_of env" type' sz la vi au ll url_ls ?init]
    by blast
  have "get_youtube env url type' sz la vi au ll =
      Inr ((success_count ?st, fail_count ?st, Some (report_path_of env)),
              trace ?st @ [WriteReport (report_path_of env)
                (report_lines ?st @ report_summary (format_rate env) (length url_ls)
                   (success_count ?st) (fail_count ?st))])"
    using get_youtube_valid[OF ty url res, of sz la vi au ll] by (simp add: Let_def)
  then show ?thesis
    unfolding body(1,2,4,5) using body(3) by auto
qed

lemma replicate_50: "replicate 50 c = c # replicate 49 c"
  by (simp add: numeral_eq_Suc)

lemma header_no_result_line: "filter is_result_line (report_header g ty m) = []"
  by (simp add: report_header_def is_result_line_def replicate_50)

lemma summary_no_result_line: "filter is_result_line (report_summary r n s f) = []"
  by (simp add: report_summary_def is_result_line_def nl_def)

lemma filter_result_lines:
  assumes "list_all2 result_line_for urls body"
  shows "filter is_result_line (report_header g ty m @ body @ report_summary r n s f) = body"
proof -
  have "filter is_result_line body = body"
    using result_lines_all[OF assms] by (simp add: filter_id_conv)
  then show ?thesis
    by (simp add: header_no_result_line summary_no_result_line)
qed

lemma filter_none: "\<forall>l \<in> set body. \<not> P l \<Longrightarrow> filter P body = []"
  by (simp add: filter_empty_conv)

lemma result_line_not_total:
  "is_result_line l \<Longrightarrow> \<not> prefix (CHR ''T'' # x) l"
  by (auto simp: is_result_line_def prefix_def)

lemma filter_total_processed:
  assumes "list_all2 result_line_for urls body"
  shows "filter (prefix ''Total Processed: '')
           (report_header g ty m @ body @ report_summary r n s f) =
         [''Total Processed: '' @ str_nat n @ nl]"
proof -
  have "filter (prefix ''Total Processed: '') body = []"
    using result_lines_all[OF assms] result_line_not_total by (intro filter_none) blast
  moreover have "filter (prefix ''Total Processed: '') (report_header g ty m) = []"
    by (simp add: report_header_def replicate_50)
  moreover have "filter (prefix ''Total Processed: '') (report_summary r n s f) =
      [''Total Processed: '' @ str_nat n @ nl]"
    by (simp add: report_summary_def nl_def)
  ultimately show ?thesis by simp
qed

lemma filter_total_success:
  assumes "list_all2 result_line_for urls body"
  shows "filter (prefix ''Total Success: '')
           (report_header g ty m @ body @ report_summary r n s f) =
         [''Total Success: '' @ str_nat s @ nl]"
proof -
  have "filter (prefix ''Total Success: '') body = []"
    using result_lines_all[OF assms] result_line_not_total by (intro filter_none) blast
  moreover have "filter (prefix ''Total Success: '') (report_header g ty m) = []"
    by (simp add: report_header_def replicate_50)
  moreover have "filter (prefix ''Total Success: '') (report_summary r n s f) =
      [''Total Success: '' @ str_nat s @ nl]"
    by (simp add: report_summary_def nl_def)
  ultimately show ?thesis by simp
qed

lemma filter_total_failures:
  assumes "list_all2 result_line_for urls body"
  shows "filter (prefix ''Total Failures: '')
           (report_header g ty m @ body @ report_summary r n s f) =
         [''Total Failures: '' @ str_nat f @ nl]"
proof -
  have "filter (prefix ''Total Failures: '') body = []"
    using result_lines_all[OF assms] result_line_not_total by (intro filter_none) blast
  moreover have "filter (prefix ''Total Failures: '') (report_header g ty m) = []"
    by (simp add: report_header_def replicate_50)
  moreover have "filter (prefix ''Total Failures: '') (report_summary r n s f) =
      [''Total Failures: '' @ str_nat f @ nl]"
    by (simp add: report_summary_def nl_def)
  ultimately show ?thesis by simp
qed

lemma downloaded_urls_run:
  "downloaded_urls (map DownloadVideo urls @ [WriteReport p ls]) = urls"
  by (induction urls) simp_all

lemma sample_extract:
  "extract_urls_from_playlist sample_playlist sample_url 3 =
     Inr [''https://www.youtube.com/watch?v=a'', ''https://www.youtube.com/watch?v=b'',
          ''https://www.youtube.com/watch?v=c'']"
  by code_simp

lemma sample_resolved:
  "resolved_urls (playlist_engine sample_env) sample_url (max_downloads_of sample_env) =
     Inr [''https://www.youtube.com/watch?v=a'', ''https://www.youtube.com/watch?v=b'',
          ''https://www.youtube.com/watch?v=c'']"
  by code_simp

section \<open>The claims\<close>

text \<open>
  Claim C1. For every URL, every behaviour of the extraction library and every
  non-negative \<open>max_downloads\<close>, \<open>extract_urls_from_playlist\<close> returns a list (it
  raises nothing), and the list has at most \<open>max_downloads\<close> elements.
\<close>

theorem extract_urls_length_capped:
  "0 \<le> max_downloads \<Longrightarrow>
   \<exists>url_list. extract_urls_from_playlist ei url max_downloads = Inr url_list \<and>
     int (length url_list) \<le> max_downloads"
  using extract_urls_cases[of url max_downloads ei]
  by (auto simp: slice_to_length)

theorem extract_urls_length_capped_witness:
  "(0::int) \<le> 3 \<and>
   (\<exists>url_list. extract_urls_from_playlist sample_playlist sample_url 3 = Inr url_list \<and>
      int (length url_list) \<le> 3)"
proof -
  have h: "(0::int) \<le> 3" by simp
  from extract_urls_length_capped[OF h, of sample_playlist sample_url] show ?thesis using h by blast
qed

text \<open>
  Claim C2. The list \<open>extract_urls_from_playlist\<close> returns holds no URL twice, for
  every URL, library behaviour and \<open>max_downloads\<close>; the seed URL of a
  \<open>watch?v=...&list=...\<close> input is the first element of the list the loop checks
  against.
\<close>

theorem extract_urls_duplicate_free:
  "\<exists>url_list. extract_urls_from_playlist ei url max_downloads = Inr url_list \<and>
     distinct url_list"
  using extract_urls_cases[of url max_downloads ei]
  by (auto simp: slice_to_distinct extract_playlist_distinct)

theorem extract_urls_duplicate_free_witness:
  "extract_urls_from_playlist sample_playlist sample_url 3 =
     Inr [''https://www.youtube.com/watch?v=a'', ''https://www.youtube.com/watch?v=b'',
          ''https://www.youtube.com/watch?v=c''] \<and>
   distinct [''https://www.youtube.com/watch?v=a'', ''https://www.youtube.com/watch?v=b'',
          ''https://www.youtube.com/watch?v=c'']"
proof -
  have e: "extract_urls_from_playlist sample_playlist sample_url 3 =
     Inr [''https://www.youtube.com/watch?v=a'', ''https://www.youtube.com/watch?v=b'',
          ''https://www.youtube.com/watch?v=c'']"
    by code_simp
  from extract_urls_duplicate_free[of sample_playlist sample_url 3] e show ?thesis by auto
qed

text \<open>
  Claim C3, as the specification states it: every URL that contains \<open>list=\<close> and
  \<open>v=\<close> is turned into \<open>https://www.youtube.com/watch?v=<id>\<close> with \<open><id>\<close> the text
  between the first \<open>v=\<close> and the next \<open>&\<close>. The code tests for \<open>&list=\<close>, so
  a URL whose \<open>list=\<close> comes right after the \<open>?\<close> is returned as it is; and
  \<open>split('v=')[1]\<close> ends the id at a second \<open>v=\<close> too.
\<close>

theorem get_video_url_claim_counterexample:
  "(str_in ''list='' ''https://www.youtube.com/watch?list=PL1&v=abc'' \<and>
    str_in ''v='' ''https://www.youtube.com/watch?list=PL1&v=abc'' \<and>
    get_video_url ''https://www.youtube.com/watch?list=PL1&v=abc'' =
      Inr ''https://www.youtube.com/watch?list=PL1&v=abc'' \<and>
    watch_url (claimed_video_id ''https://www.youtube.com/watch?list=PL1&v=abc'') =
      ''https://www.youtube.com/watch?v=abc'' \<and>
    get_video_url ''https://www.youtube.com/watch?list=PL1&v=abc'' \<noteq>
      Inr (watch_url (claimed_video_id ''https://www.youtube.com/watch?list=PL1&v=abc''))) \<and>
   (str_in ''list='' ''https://www.youtube.com/watch?v=abv=c&list=PL1'' \<and>
    str_in ''v='' ''https://www.youtube.com/watch?v=abv=c&list=PL1'' \<and>
    get_video_url ''https://www.youtube.com/watch?v=abv=c&list=PL1'' =
      Inr ''https://www.youtube.com/watch?v=ab'' \<and>
    watch_url (claimed_video_id ''https://www.youtube.com/watch?v=abv=c&list=PL1'') =
      ''https://www.youtube.com/watch?v=abv=c'' \<and>
    get_video_url ''https://www.youtube.com/watch?v=abv=c&list=PL1'' \<noteq>
      Inr (watch_url (claimed_video_id ''https://www.youtube.com/watch?v=abv=c&list=PL1'')))"
  by code_simp

text \<open>
  Claim C3, amended. For every URL that contains \<open>&list=\<close> and \<open>v=\<close>,
  \<open>get_video_url\<close> returns \<open>https://www.youtube.com/watch?v=<id>\<close>, where \<open><id>\<close> is
  the text after the first \<open>v=\<close> up to the next \<open>v=\<close> or \<open>&\<close> (or the end); the
  result contains no \<open>&\<close>, hence no \<open>&list=\<close> parameter. Every URL that does not
  contain \<open>list=\<close> is returned unchanged.
\<close>

theorem get_video_url_canonical:
  "(str_in ''&list='' u \<and> str_in ''v='' u \<longrightarrow>
      get_video_url u = Inr (watch_url (video_id_of ''v='' u)) \<and>
      CHR ''&'' \<notin> set (watch_url (video_id_of ''v='' u)) \<and>
      \<not> str_in ''&list='' (watch_url (video_id_of ''v='' u))) \<and>
   (\<not> str_in ''list='' u \<longrightarrow> get_video_url u = Inr u)"
  using get_video_url_playlist[of u] get_video_url_other[of u] list_imp_amp_list[of u]
    amp_notin_watch_url[of "''v=''" u] no_list_in_watch_url[of "''v=''" u]
  by blast

theorem get_video_url_canonical_witness:
  "(str_in ''&list='' sample_url \<and> str_in ''v='' sample_url \<and>
    get_video_url sample_url = Inr ''https://www.youtube.com/watch?v=a'' \<and>
    CHR ''&'' \<notin> set ''https://www.youtube.com/watch?v=a'') \<and>
   (\<not> str_in ''list='' ''https://www.youtube.com/watch?v=abc'' \<and>
    get_video_url ''https://www.youtube.com/watch?v=abc'' =
      Inr ''https://www.youtube.com/watch?v=abc'')"
proof -
  have h1: "str_in ''&list='' sample_url \<and> str_in ''v='' sample_url" by code_simp
  have v: "watch_url (video_id_of ''v='' sample_url) = ''https://www.youtube.com/watch?v=a''"
    by code_simp
  have h2: "\<not> str_in ''list='' ''https://www.youtube.com/watch?v=abc''" by code_simp
  from get_video_url_canonical[of sample_url] h1 v
  have 1: "get_video_url sample_url = Inr ''https://www.youtube.com/watch?v=a'' \<and>
    CHR ''&'' \<notin> set ''https://www.youtube.com/watch?v=a''"
    by metis
  from get_video_url_canonical[of "''https://www.youtube.com/watch?v=abc''"] h2
  have 2: "get_video_url ''https://www.youtube.com/watch?v=abc'' =
      Inr ''https://www.youtube.com/watch?v=abc''"
    by blast
  show ?thesis using h1 h2 1 2 by blast
qed

text \<open>
  Claim C4. When the engine raises inside the \<open>try\<close> block, or returns no metadata,
  \<open>download_video\<close> returns \<open>False\<close> with a message. And whatever the engine does
  on each URL, \<open>get_youtube\<close> calls \<open>download_video\<close> on every resolved URL, once
  each and in order: the URLs of the calls are the resolved list.
\<close>

theorem download_failures_isolated:
  "(engine_raises (eng h v (make_download_opts od ty sz vf af ll)) e \<longrightarrow>
      download_video eng v od ty sz la vf af ll h =
        ((False, Some (''Unknown (Error: '' @ e @ '')'')), h @ [DownloadVideo v])) \<and>
   (engine_no_metadata (eng h v (make_download_opts od ty sz vf af ll)) \<longrightarrow>
      download_video eng v od ty sz la vf af ll h =
        ((False, Some ''Unknown (Info extraction failed)''), h @ [DownloadVideo v])) \<and>
   (type' \<in> set [''video'', ''audio''] \<and> effective_url env url = Some u \<and>
    resolved_urls (playlist_engine env) u (max_downloads_of env) = Inr url_ls \<longrightarrow>
      (\<exists>r tr. get_youtube env url type' size' language video audio log_level = Inr (r, tr) \<and>
               downloaded_urls tr = url_ls))"
proof (intro conjI impI)
  assume "engine_raises (eng h v (make_download_opts od ty sz vf af ll)) e"
  then show "download_video eng v od ty sz la vf af ll h =
        ((False, Some (''Unknown (Error: '' @ e @ '')'')), h @ [DownloadVideo v])"
    by (rule download_video_raises)
next
  assume "engine_no_metadata (eng h v (make_download_opts od ty sz vf af ll))"
  then show "download_video eng v od ty sz la vf af ll h =
        ((False, Some ''Unknown (Info extraction failed)''), h @ [DownloadVideo v])"
    by (rule download_video_no_metadata)
next
  assume a: "type' \<in> set [''video'', ''audio''] \<and> effective_url env url = Some u \<and>
    resolved_urls (playlist_engine env) u (max_downloads_of env) = Inr url_ls"
  then obtain body where
    "get_youtube env url type' size' language video audio log_level =
       Inr ((length (filter (prefix ''SUCCESS:'') body),
             length (filter (prefix ''FAILED:'') body),
             Some (report_path_of env)),
            map DownloadVideo url_ls @
            [WriteReport (report_path_of env)
               (report_header (now_generated env) type' (max_downloads_of env) @ body @
                report_summary (format_rate env) (length url_ls)
                  (length (filter (prefix ''SUCCESS:'') body))
                  (length (filter (prefix ''FAILED:'') body)))])"
    using get_youtube_run[of type' env url u url_ls size' language video audio log_level]
    by blast
  then show "\<exists>r tr. get_youtube env url type' size' language video audio log_level = Inr (r, tr) \<and>
               downloaded_urls tr = url_ls"
    by (simp add: downloaded_urls_run)
qed

theorem download_failures_isolated_witness:
  "(engine_raises (sample_engine [] ''https://www.youtube.com/watch?v=b''
       (make_download_opts ''/proj/downloads'' ''video'' ''760'' ''mp4'' ''mp3'' ''INFO'')) ''boom'' \<and>
    download_video sample_engine ''https://www.youtube.com/watch?v=b'' ''/proj/downloads''
       ''video'' ''760'' ''en'' ''mp4'' ''mp3'' ''INFO'' [] =
      ((False, Some ''Unknown (Error: boom)''),
       [DownloadVideo ''https://www.youtube.com/watch?v=b''])) \<and>
   (engine_no_metadata (sample_engine [] ''https://www.youtube.com/watch?v=c''
       (make_download_opts ''/proj/downloads'' ''video'' ''760'' ''mp4'' ''mp3'' ''INFO'')) \<and>
    download_video sample_engine ''https://www.youtube.com/watch?v=c'' ''/proj/downloads''
       ''video'' ''760'' ''en'' ''mp4'' ''mp3'' ''INFO'' [] =
      ((False, Some ''Unknown (Info extraction failed)''),
       [DownloadVideo ''https://www.youtube.com/watch?v=c''])) \<and>
   (''video'' \<in> set [''video'', ''audio''] \<and>
    effective_url sample_env (Some sample_url) = Some sample_url \<and>
    resolved_urls (playlist_engine sample_env) sample_url (max_downloads_of sample_env) =
      Inr [''https://www.youtube.com/watch?v=a'', ''https://www.youtube.com/watch?v=b'',
           ''https://www.youtube.com/watch?v=c''] \<and>
    (\<exists>r tr. get_youtube sample_env (Some sample_url) ''video'' ''760'' ''en'' ''mp4'' ''mp3''
               ''INFO'' = Inr (r, tr) \<and>
             downloaded_urls tr =
               [''https://www.youtube.com/watch?v=a'', ''https://www.youtube.com/watch?v=b'',
                ''https://www.youtube.com/watch?v=c'']))"
proof -
  have raises: "engine_raises (sample_engine [] ''https://www.youtube.com/watch?v=b''
       (make_download_opts ''/proj/downloads'' ''video'' ''760'' ''mp4'' ''mp3'' ''INFO'')) ''boom''"
    by code_simp
  have none: "engine_no_metadata (sample_engine [] ''https://www.youtube.com/watch?v=c''
       (make_download_opts ''/proj/downloads'' ''video'' ''760'' ''mp4'' ''mp3'' ''INFO''))"
    by code_simp
  have ty: "''video'' \<in> set [''video'', ''audio'']" by simp
  have url: "effective_url sample_env (Some sample_url) = Some sample_url"
    by code_simp
  note res = sample_resolved
  have 1: "download_video sample_engine ''https://www.youtube.com/watch?v=b'' ''/proj/downloads''
       ''video'' ''760'' ''en'' ''mp4'' ''mp3'' ''INFO'' [] =
      ((False, Some ''Unknown (Error: boom)''),
       [DownloadVideo ''https://www.youtube.com/watch?v=b''])"
    using download_failures_isolated[of sample_engine "[]" "''https://www.youtube.com/watch?v=b''" "''/proj/downloads''"
        "''video''" "''760''" "''mp4''" "''mp3''" "''INFO''" "''boom''" "''en''"] raises
    by simp
  have 2: "download_video sample_engine ''https://www.youtube.com/watch?v=c'' ''/proj/downloads''
       ''video'' ''760'' ''en'' ''mp4'' ''mp3'' ''INFO'' [] =
      ((False, Some ''Unknown (Info extraction failed)''),
       [DownloadVideo ''https://www.youtube.com/watch?v=c''])"
    using download_failures_isolated[of sample_engine "[]" "''https://www.youtube.com/watch?v=c''" "''/proj/downloads''"
        "''video''" "''760''" "''mp4''" "''mp3''" "''INFO''" _ "''en''"] none
    by simp
  have 3: "\<exists>r tr. get_youtube sample_env (Some sample_url) ''video'' ''760'' ''en'' ''mp4'' ''mp3''
               ''INFO'' = Inr (r, tr) \<and>
             downloaded_urls tr =
               [''https://www.youtube.com/watch?v=a'', ''https://www.youtube.com/watch?v=b'',
                ''https://www.youtube.com/watch?v=c'']"
    using download_failures_isolated[where type' = "''video''" and env = sample_env and url = "Some sample_url"
        and u = sample_url and size' = "''760''" and language = "''en''" and video = "''mp4''"
        and audio = "''mp3''" and log_level = "''INFO''"
        and url_ls = "[''https://www.youtube.com/watch?v=a'', ''https://www.youtube.com/watch?v=b'',
           ''https://www.youtube.com/watch?v=c'']"] ty url res
    by blast
  show ?thesis
    by (intro conjI) (fact raises, fact 1, fact none, fact 2, fact ty, fact url, fact res, fact 3)
qed

text \<open>
  Claim C5. With a valid type and a URL, \<open>get_youtube\<close> returns the two counts and
  the report path; the counts add up to the number of resolved URLs; the report
  written has as many result lines as there are resolved URLs, and its only
  \<open>Total Processed\<close>, \<open>Total Success\<close> and \<open>Total Failures\<close> lines carry the number of
  URLs and the two counts returned.
\<close>

theorem report_counts_consistent:
  assumes "type' \<in> set [''video'', ''audio'']"
    and "effective_url env url = Some u"
    and "resolved_urls (playlist_engine env) u (max_downloads_of env) = Inr url_ls"
  shows "\<exists>success_count fail_count tr lines.
     get_youtube env url type' size' language video audio log_level =
       Inr ((success_count, fail_count, Some (report_path_of env)),
            tr @ [WriteReport (report_path_of env) lines]) \<and>
     success_count + fail_count = length url_ls \<and>
     length (filter is_result_line lines) = length url_ls \<and>
     filter (prefix ''Total Processed: '') lines =
       [''Total Processed: '' @ str_nat (length url_ls) @ nl] \<and>
     filter (prefix ''Total Success: '') lines =
       [''Total Success: '' @ str_nat success_count @ nl] \<and>
     filter (prefix ''Total Failures: '') lines =
       [''Total Failures: '' @ str_nat fail_count @ nl]"
proof -
  obtain body where body: "list_all2 result_line_for url_ls body"
    and run: "get_youtube env url type' size' language video audio log_level =
       Inr ((length (filter (prefix ''SUCCESS:'') body),
             length (filter (prefix ''FAILED:'') body),
             Some (report_path_of env)),
            map DownloadVideo url_ls @
            [WriteReport (report_path_of env)
               (report_header (now_generated env) type' (max_downloads_of env) @ body @
                report_summary (format_rate env) (length url_ls)
                  (length (filter (prefix ''SUCCESS:'') body))
                  (length (filter (prefix ''FAILED:'') body)))])"
    using get_youtube_run[OF assms, of size' language video audio log_level] by blast
  let ?s = "length (filter (prefix ''SUCCESS:'') body)"
  let ?f = "length (filter (prefix ''FAILED:'') body)"
  let ?lines = "report_header (now_generated env) type' (max_downloads_of env) @ body @
                report_summary (format_rate env) (length url_ls) ?s ?f"
  have "?s + ?f = length url_ls" using body by (rule result_lines_count)
  moreover have "length (filter is_result_line ?lines) = length url_ls"
    using filter_result_lines[OF body] list_all2_lengthD[OF body] by simp
  moreover have "filter (prefix ''Total Processed: '') ?lines =
       [''Total Processed: '' @ str_nat (length url_ls) @ nl]"
    using body by (rule filter_total_processed)
  moreover have "filter (prefix ''Total Success: '') ?lines =
       [''Total Success: '' @ str_nat ?s @ nl]"
    using body by (rule filter_total_success)
  moreover have "filter (prefix ''Total Failures: '') ?lines =
       [''Total Failures: '' @ str_nat ?f @ nl]"
    using body by (rule filter_total_failures)
  ultimately show ?thesis using run by blast
qed

theorem report_counts_consistent_witness:
  "''video'' \<in> set [''video'', ''audio''] \<and>
   effective_url sample_env (Some sample_url) = Some sample_url \<and>
   resolved_urls (playlist_engine sample_env) sample_url (max_downloads_of sample_env) =
     Inr [''https://www.youtube.com/watch?v=a'', ''https://www.youtube.com/watch?v=b'',
          ''https://www.youtube.com/watch?v=c''] \<and>
   (\<exists>success_count fail_count tr lines.
     get_youtube sample_env (Some sample_url) ''video'' ''760'' ''en'' ''mp4'' ''mp3'' ''INFO'' =
       Inr ((success_count, fail_count, Some (report_path_of sample_env)),
            tr @ [WriteReport (report_path_of sample_env) lines]) \<and>
     success_count + fail_count = 3 \<and>
     length (filter is_result_line lines) = 3 \<and>
     filter (prefix ''Total Processed: '') lines = [''Total Processed: '' @ str_nat 3 @ nl] \<and>
     filter (prefix ''Total Success: '') lines =
       [''Total Success: '' @ str_nat success_count @ nl] \<and>
     filter (prefix ''Total Failures: '') lines =
       [''Total Failures: '' @ str_nat fail_count @ nl])"
proof -
  have ty: "''video'' \<in> set [''video'', ''audio'']" by simp
  have url: "effective_url sample_env (Some sample_url) = Some sample_url" by code_simp
  have res: "resolved_urls (playlist_engine sample_env) sample_url (max_downloads_of sample_env) =
     Inr [''https://www.youtube.com/watch?v=a'', ''https://www.youtube.com/watch?v=b'',
          ''https://www.youtube.com/watch?v=c'']"
    by code_simp
  have n: "length [''https://www.youtube.com/watch?v=a'', ''https://www.youtube.com/watch?v=b'',
          ''https://www.youtube.com/watch?v=c''] = 3"
    by simp
  note w = report_counts_consistent[OF ty url res, of "''760''" "''en''" "''mp4''" "''mp3''" "''INFO''", unfolded n]
  show ?thesis by (intro conjI) (fact ty, fact url, fact res, fact w)
qed

text \<open>
  Claim C6. The trace of a run of \<open>get_youtube\<close> is the calls of \<open>download_video\<close>
  on the resolved URLs in list order, followed by the writing of the report and
  nothing else; the result lines of the report are, in the same order, the result
  lines of the resolved URLs.
\<close>

theorem downloads_in_order_then_report:
  assumes "type' \<in> set [''video'', ''audio'']"
    and "effective_url env url = Some u"
    and "resolved_urls (playlist_engine env) u (max_downloads_of env) = Inr url_ls"
  shows "\<exists>r lines.
     get_youtube env url type' size' language video audio log_level =
       Inr (r, map DownloadVideo url_ls @ [WriteReport (report_path_of env) lines]) \<and>
     list_all2 result_line_for url_ls (filter is_result_line lines)"
proof -
  obtain body where body: "list_all2 result_line_for url_ls body"
    and run: "get_youtube env url type' size' language video audio log_level =
       Inr ((length (filter (prefix ''SUCCESS:'') body),
             length (filter (prefix ''FAILED:'') body),
             Some (report_path_of env)),
            map DownloadVideo url_ls @
            [WriteReport (report_path_of env)
               (report_header (now_generated env) type' (max_downloads_of env) @ body @
                report_summary (format_rate env) (length url_ls)
                  (length (filter (prefix ''SUCCESS:'') body))
                  (length (filter (prefix ''FAILED:'') body)))])"
    using get_youtube_run[OF assms, of size' language video audio log_level] by blast
  have "list_all2 result_line_for url_ls
          (filter is_result_line
             (report_header (now_generated env) type' (max_downloads_of env) @ body @
                report_summary (format_rate env) (length url_ls)
                  (length (filter (prefix ''SUCCESS:'') body))
                  (length (filter (prefix ''FAILED:'') body))))"
    unfolding filter_result_lines[OF body] by (rule body)
  then show ?thesis using run by blast
qed

theorem downloads_in_order_then_report_witness:
  "''video'' \<in> set [''video'', ''audio''] \<and>
   effective_url sample_env (Some sample_url) = Some sample_url \<and>
   resolved_urls (playlist_engine sample_env) sample_url (max_downloads_of sample_env) =
     Inr [''https://www.youtube.com/watch?v=a'', ''https://www.youtube.com/watch?v=b'',
          ''https://www.youtube.com/watch?v=c''] \<and>
   (\<exists>r lines.
     get_youtube sample_env (Some sample_url) ''video'' ''760'' ''en'' ''mp4'' ''mp3'' ''INFO'' =
       Inr (r, map DownloadVideo
                 [''https://www.youtube.com/watch?v=a'', ''https://www.youtube.com/watch?v=b'',
                  ''https://www.youtube.com/watch?v=c''] @
               [WriteReport (report_path_of sample_env) lines]) \<and>
     list_all2 result_line_for
       [''https://www.youtube.com/watch?v=a'', ''https://www.youtube.com/watch?v=b'',
        ''https://www.youtube.com/watch?v=c'']
       (filter is_result_line lines))"
proof -
  have ty: "''video'' \<in> set [''video'', ''audio'']" by simp
  have url: "effective_url sample_env (Some sample_url) = Some sample_url" by code_simp
  have res: "resolved_urls (playlist_engine sample_env) sample_url (max_downloads_of sample_env) =
     Inr [''https://www.youtube.com/watch?v=a'', ''https://www.youtube.com/watch?v=b'',
          ''https://www.youtube.com/watch?v=c'']"
    by code_simp
  note w = downloads_in_order_then_report[OF ty url res, of "''760''" "''en''" "''mp4''" "''mp3''" "''INFO''"]
  show ?thesis by (intro conjI) (fact ty, fact url, fact res, fact w)
qed

text \<open>
  Claim C7. For a type other than \<open>video\<close> and \<open>audio\<close>, \<open>get_youtube\<close> returns
  \<open>(0, 0, None)\<close> with an empty trace: no call of \<open>download_video\<close>, no report
  written.
\<close>

theorem invalid_type_rejected:
  "type' \<notin> set [''video'', ''audio''] \<Longrightarrow>
   get_youtube env url type' size' language video audio log_level = Inr ((0, 0, None), [])"
  by (rule get_youtube_invalid_type)

theorem invalid_type_rejected_witness:
  "''movie'' \<notin> set [''video'', ''audio''] \<and>
   get_youtube sample_env (Some sample_url) ''movie'' ''760'' ''en'' ''mp4'' ''mp3'' ''INFO'' =
     Inr ((0, 0, None), [])"
proof -
  have h: "''movie'' \<notin> set [''video'', ''audio'']" by simp
  from invalid_type_rejected[OF h] show ?thesis using h by blast
qed

text \<open>
  Claim C8. \<open>get_video_url\<close> is idempotent: it returns a string \<open>r\<close> (it raises
  nothing), and applied to \<open>r\<close> it returns \<open>r\<close> again.
\<close>

theorem get_video_url_idempotent:
  "\<exists>r. get_video_url u = Inr r \<and> get_video_url r = Inr r"
proof (cases "str_in ''&list='' u \<and> str_in ''v='' u")
  case True
  then have "get_video_url u = Inr (watch_url (video_id_of ''v='' u))"
    by (simp add: get_video_url_playlist)
  moreover have "get_video_url (watch_url (video_id_of ''v='' u)) = Inr (watch_url (video_id_of ''v='' u))"
    using no_list_in_watch_url[of "''v=''" u] by (simp add: get_video_url_other)
  ultimately show ?thesis by blast
next
  case False
  then have "get_video_url u = Inr u" by (rule get_video_url_other)
  then show ?thesis by simp
qed

theorem get_video_url_idempotent_witness:
  "get_video_url sample_url = Inr ''https://www.youtube.com/watch?v=a'' \<and>
   get_video_url ''https://www.youtube.com/watch?v=a'' = Inr ''https://www.youtube.com/watch?v=a''"
proof -
  have e: "get_video_url sample_url = Inr ''https://www.youtube.com/watch?v=a''" by code_simp
  from get_video_url_idempotent[of sample_url] e show ?thesis by auto
qed

text \<open>
  Claim C9. Every element of the list \<open>extract_urls_from_playlist\<close> returns starts
  with \<open>https://www.youtube.com/watch?v=\<close>.
\<close>

theorem extract_urls_watch_prefix:
  "\<exists>url_list. extract_urls_from_playlist ei url max_downloads = Inr url_list \<and>
     (\<forall>u \<in> set url_list. prefix ''https://www.youtube.com/watch?v='' u)"
proof -
  let ?seed = "[watch_url (video_id_of ''watch?v='' url)]"
  let ?P = "\<lambda>ul. \<forall>u \<in> set ul. prefix ''https://www.youtube.com/watch?v='' u"
  have nil: "?P []" by simp
  consider
    (single) "extract_urls_from_playlist ei url max_downloads = Inr ?seed"
  | (seeded) "extract_urls_from_playlist ei url max_downloads =
       Inr (slice_to (extract_playlist ei url max_downloads ?seed) max_downloads)"
  | (plain) "extract_urls_from_playlist ei url max_downloads =
       Inr (slice_to (extract_playlist ei url max_downloads []) max_downloads)"
    using extract_urls_cases[of url max_downloads ei] by blast
  then show ?thesis
  proof cases
    case single
    then show ?thesis using seed_watch by blast
  next
    case seeded
    have "?P (slice_to (extract_playlist ei url max_downloads ?seed) max_downloads)"
      by (rule slice_to_all, rule extract_playlist_watch, rule seed_watch)
    then show ?thesis using seeded by blast
  next
    case plain
    have "?P (slice_to (extract_playlist ei url max_downloads []) max_downloads)"
      by (rule slice_to_all, rule extract_playlist_watch, rule nil)
    then show ?thesis using plain by blast
  qed
qed

theorem extract_urls_watch_prefix_witness:
  "extract_urls_from_playlist sample_playlist sample_url 3 =
     Inr [''https://www.youtube.com/watch?v=a'', ''https://www.youtube.com/watch?v=b'',
          ''https://www.youtube.com/watch?v=c''] \<and>
   prefix ''https://www.youtube.com/watch?v='' ''https://www.youtube.com/watch?v=a'' \<and>
   prefix ''https://www.youtube.com/watch?v='' ''https://www.youtube.com/watch?v=b'' \<and>
   prefix ''https://www.youtube.com/watch?v='' ''https://www.youtube.com/watch?v=c''"
proof -
  have e: "extract_urls_from_playlist sample_playlist sample_url 3 =
     Inr [''https://www.youtube.com/watch?v=a'', ''https://www.youtube.com/watch?v=b'',
          ''https://www.youtube.com/watch?v=c'']"
    by code_simp
  from extract_urls_watch_prefix[of sample_playlist sample_url 3] e show ?thesis by auto
qed

text \<open>
  Claim C10. After the first emptiness check (line 352) the URL list is never
  empty, for every URL and library behaviour. So with a valid type and a URL,
  \<open>get_youtube\<close> never takes the return of line 356: what it returns carries a
  report path.
\<close>

theorem download_loop_reached_nonempty:
  "(\<exists>url_ls. resolved_urls ei u max_downloads = Inr url_ls \<and> url_ls \<noteq> []) \<and>
   (type' \<in> set [''video'', ''audio''] \<and> effective_url env url = Some u \<longrightarrow>
      (\<exists>s f p tr. get_youtube env url type' size' language video audio log_level =
         Inr ((s, f, Some p), tr)))"
proof (intro conjI impI)
  show "\<exists>url_ls. resolved_urls ei u max_downloads = Inr url_ls \<and> url_ls \<noteq> []"
    by (rule resolved_urls_nonempty)
next
  assume a: "type' \<in> set [''video'', ''audio''] \<and> effective_url env url = Some u"
  obtain url_ls where
    "resolved_urls (playlist_engine env) u (max_downloads_of env) = Inr url_ls"
    using resolved_urls_nonempty by blast
  with a obtain body where
    "get_youtube env url type' size' language video audio log_level =
       Inr ((length (filter (prefix ''SUCCESS:'') body),
             length (filter (prefix ''FAILED:'') body),
             Some (report_path_of env)),
            map DownloadVideo url_ls @
            [WriteReport (report_path_of env)
               (report_header (now_generated env) type' (max_downloads_of env) @ body @
                report_summary (format_rate env) (length url_ls)
                  (length (filter (prefix ''SUCCESS:'') body))
                  (length (filter (prefix ''FAILED:'') body)))])"
    using get_youtube_run[of type' env url u url_ls size' language video audio log_level]
    by blast
  then show "\<exists>s f p tr. get_youtube env url type' size' language video audio log_level =
         Inr ((s, f, Some p), tr)"
    by blast
qed

theorem download_loop_reached_nonempty_witness:
  "''audio'' \<in> set [''video'', ''audio''] \<and>
   effective_url sample_env (Some ''https://www.youtube.com/playlist?list=PL1'') =
     Some ''https://www.youtube.com/playlist?list=PL1'' \<and>
   (\<exists>url_ls. resolved_urls (\<lambda>playlist_url. Raised)
                ''https://www.youtube.com/playlist?list=PL1'' 3 = Inr url_ls \<and> url_ls \<noteq> []) \<and>
   (\<exists>s f p tr. get_youtube sample_env (Some ''https://www.youtube.com/playlist?list=PL1'')
                  ''audio'' ''760'' ''en'' ''mp4'' ''mp3'' ''INFO'' = Inr ((s, f, Some p), tr))"
proof -
  have ty: "''audio'' \<in> set [''video'', ''audio'']" by simp
  have url: "effective_url sample_env (Some ''https://www.youtube.com/playlist?list=PL1'') =
     Some ''https://www.youtube.com/playlist?list=PL1''"
    by code_simp
  note w = download_loop_reached_nonempty[of "\<lambda>playlist_url. Raised" "''https://www.youtube.com/playlist?list=PL1''" 3
      "''audio''" sample_env "Some ''https://www.youtube.com/playlist?list=PL1''"
      "''760''" "''en''" "''mp4''" "''mp3''" "''INFO''"]
  show ?thesis using w ty url by blast
qed

end
